theory Spec2Isabelle
  imports Complex_Main "HOL-Library.Product_Lexorder" "HOL-Library.Multiset"
begin

section \<open>Expense analytics: data model\<close>

text \<open>
  The theory embeds the analytics part of the expense tracker: the service class
  \<^verbatim>\<open>ExpenseService\<close> (service.py), the response schemas with their serializers
  (schemas.py) and the route handlers (routes.py).

  Conventions of the embedding.
  \<^item> The column \<^verbatim>\<open>amount\<close> is \<^verbatim>\<open>Numeric(10, 2)\<close>: a fixed-point number with two
    decimals. A row keeps it as an integer number of hundredths; \<open>numeric\<close> gives its value.
  \<^item> A decimal the store computes and a Python \<^verbatim>\<open>float\<close> are both modelled by the
    rational number they stand for: \<^verbatim>\<open>float(d)\<close> of a decimal \<open>d\<close> is the value of \<open>d\<close>,
    and \<^verbatim>\<open>+\<close>, \<^verbatim>\<open>/\<close>, \<^verbatim>\<open>*\<close> are exact. The rounding error of binary floating point
    is outside the model.
  \<^item> A timestamp is the tuple (year, month, day, microsecond of the day) of one fixed time
    zone, ordered lexicographically, which is the chronological order.
  \<^item> A UUID is a natural number.
  \<^item> The store is an explicit state: the rows of the table \<^verbatim>\<open>expenses\<close> and a counter
    of the statements executed against it. SQL leaves two things to the engine that the
    code relies on: the relative order of rows that tie on the \<^verbatim>\<open>ORDER BY\<close> key, and the
    operator \<^verbatim>\<open>ILIKE\<close>. Both are fields of the state, so that nothing is assumed of them.
\<close>

datatype ExpenseCategory =
  FOOD | TRANSPORT | RENT | GROCERIES | UTILITIES | ENTERTAINMENT | HEALTHCARE
  | EDUCATION | SHOPPING | SAVINGS | FOODSTUFF | TRAVEL | OTHERS

type_synonym uuid = nat

type_synonym datetime = "int \<times> int \<times> int \<times> nat"

type_synonym date = "int \<times> int \<times> int"

definition extract_year :: "datetime \<Rightarrow> int" where
  "extract_year d = fst d"

definition extract_month :: "datetime \<Rightarrow> int" where
  "extract_month d = fst (snd d)"

definition func_date :: "datetime \<Rightarrow> date" where
  "func_date d = (fst d, fst (snd d), fst (snd (snd d)))"

record Expense =
  expense_id :: uuid
  user_id :: uuid
  title :: string
  amount :: int
  category :: ExpenseCategory
  description :: "string option"
  expense_date :: datetime

record session =
  table :: "Expense list"
  tie_rank :: "ExpenseCategory \<Rightarrow> nat"
  ilike :: "string \<Rightarrow> string \<Rightarrow> bool"
  executed :: nat

text \<open>
  \<^verbatim>\<open>await session.execute(statement)\<close>: a statement is given by its meaning, a function
  of the table rows and of the engine; executing it reads the table and counts one access.
\<close>

definition execute :: "(session \<Rightarrow> 'a) \<Rightarrow> session \<Rightarrow> 'a \<times> session" where
  "execute statement s = (statement s, s\<lparr>executed := Suc (executed s)\<rparr>)"



subsection \<open>SQL aggregates and Python conversions\<close>

definition numeric :: "int \<Rightarrow> rat" where
  "numeric a = rat_of_int a / 100"

text \<open>\<^verbatim>\<open>func.sum\<close> and \<^verbatim>\<open>func.avg\<close> are NULL over no rows; \<^verbatim>\<open>func.count\<close> is 0.\<close>

definition func_sum :: "int list \<Rightarrow> rat option" where
  "func_sum xs = (if xs = [] then None else Some (numeric (sum_list xs)))"

definition func_avg :: "int list \<Rightarrow> rat option" where
  "func_avg xs =
     (if xs = [] then None else Some (numeric (sum_list xs) / rat_of_nat (length xs)))"

definition func_count :: "'a list \<Rightarrow> nat" where
  "func_count xs = length xs"

definition float :: "rat \<Rightarrow> rat" where
  "float d = d"

text \<open>
  \<^verbatim>\<open>float(row.total) if row.total else 0.0\<close>: a NULL and a zero decimal are both falsy.
\<close>

definition float_or_zero :: "rat option \<Rightarrow> rat" where
  "float_or_zero t = (case t of None \<Rightarrow> 0 | Some d \<Rightarrow> if d \<noteq> 0 then float d else 0)"

text \<open>\<^verbatim>\<open>row.expense_count if row.expense_count else 0\<close>.\<close>

definition count_or_zero :: "nat \<Rightarrow> nat" where
  "count_or_zero n = (if n \<noteq> 0 then n else 0)"


subsection \<open>Formatting integers\<close>

definition digit_char :: "nat \<Rightarrow> char" where
  "digit_char n = ''0123456789'' ! (n mod 10)"

function str_nat :: "nat \<Rightarrow> string" where
  "str_nat n = (if n < 10 then [digit_char n] else str_nat (n div 10) @ [digit_char (n mod 10)])"
  by pat_completeness auto
termination
  by (relation "measure id") auto

text \<open>\<^verbatim>\<open>str(i)\<close> of an integer.\<close>

definition str :: "int \<Rightarrow> string" where
  "str i = (if i < 0 then CHR ''-'' # str_nat (nat (- i)) else str_nat (nat i))"

text \<open>
  The format specification \<^verbatim>\<open>0wd\<close> (\<^verbatim>\<open>f"{i:02d}"\<close>): the sign, then zeros up to the total
  width \<open>w\<close>, then the digits.
\<close>

definition format_0d :: "nat \<Rightarrow> int \<Rightarrow> string" where
  "format_0d w i =
     (let sign = (if i < 0 then [CHR ''-''] else []); ds = str_nat (nat \<bar>i\<bar>)
      in sign @ replicate (w - length sign - length ds) CHR ''0'' @ ds)"

text \<open>\<^verbatim>\<open>str(d)\<close> of a \<^verbatim>\<open>datetime.date\<close>: the ISO format \<^verbatim>\<open>YYYY-MM-DD\<close>.\<close>

definition str_date :: "date \<Rightarrow> string" where
  "str_date d =
     (case d of (y, m, dd) \<Rightarrow> format_0d 4 y @ ''-'' @ format_0d 2 m @ ''-'' @ format_0d 2 dd)"

subsection \<open>The WHERE clauses\<close>

text \<open>
  \<^verbatim>\<open>if start_date: statement = statement.where(Expense.expense_date >= start_date)\<close>, and
  the same for \<^verbatim>\<open>end_date\<close>; a datetime object is always truthy, so only \<^verbatim>\<open>None\<close> skips
  the filter.
\<close>

definition in_window :: "datetime option \<Rightarrow> datetime option \<Rightarrow> Expense \<Rightarrow> bool" where
  "in_window start_date end_date r =
     ((case start_date of None \<Rightarrow> True | Some d \<Rightarrow> d \<le> expense_date r) \<and>
      (case end_date of None \<Rightarrow> True | Some d \<Rightarrow> expense_date r \<le> d))"

definition owned_in_window ::
  "uuid \<Rightarrow> datetime option \<Rightarrow> datetime option \<Rightarrow> Expense list \<Rightarrow> Expense list" where
  "owned_in_window uid start_date end_date rs =
     filter (\<lambda>r. user_id r = uid \<and> in_window start_date end_date r) rs"

section \<open>Spending by category and the summary\<close>

record CategorySpendingModel =
  cs_category :: ExpenseCategory
  cs_total_amount :: rat
  cs_expense_count :: nat

record SpendingSummaryModel =
  ss_total_spending :: rat
  ss_expense_count :: nat
  ss_category_breakdown :: "CategorySpendingModel list"
  ss_start_date :: "datetime option"
  ss_end_date :: "datetime option"

text \<open>
  \<^verbatim>\<open>GROUP BY category\<close>: one row per category that occurs, with the sum of the amounts and
  the number of rows of the group. A group has at least one row, so its sum is not NULL.
\<close>

definition group_by_category :: "Expense list \<Rightarrow> (ExpenseCategory \<times> rat \<times> nat) list" where
  "group_by_category rs =
     map (\<lambda>c. (c, numeric (sum_list (map amount [r \<leftarrow> rs. category r = c])),
               func_count [r \<leftarrow> rs. category r = c]))
         (remdups (map category rs))"

text \<open>
  \<^verbatim>\<open>ORDER BY total_amount DESC\<close>: descending sum; rows with the same sum come in the order
  the engine chooses, here by its \<open>tie_rank\<close>.
\<close>

definition order_by_desc_total ::
  "(ExpenseCategory \<Rightarrow> nat) \<Rightarrow> (ExpenseCategory \<times> rat \<times> nat) list
     \<Rightarrow> (ExpenseCategory \<times> rat \<times> nat) list" where
  "order_by_desc_total rank rows = sort_key (\<lambda>(c, t, n). (- t, rank c)) rows"

definition spending_by_category_statement ::
  "uuid \<Rightarrow> datetime option \<Rightarrow> datetime option \<Rightarrow> session
     \<Rightarrow> (ExpenseCategory \<times> rat \<times> nat) list" where
  "spending_by_category_statement uid start_date end_date s =
     order_by_desc_total (tie_rank s)
       (group_by_category (owned_in_window uid start_date end_date (table s)))"

definition get_spending_by_category ::
  "uuid \<Rightarrow> datetime option \<Rightarrow> datetime option \<Rightarrow> session
     \<Rightarrow> CategorySpendingModel list \<times> session" where
  "get_spending_by_category uid start_date end_date s =
     (let (rows, s') = execute (spending_by_category_statement uid start_date end_date) s
      in (map (\<lambda>(c, t, n). \<lparr>cs_category = c, cs_total_amount = float t,
                             cs_expense_count = n\<rparr>) rows, s'))"

definition total_statement ::
  "uuid \<Rightarrow> datetime option \<Rightarrow> datetime option \<Rightarrow> session \<Rightarrow> rat option \<times> nat" where
  "total_statement uid start_date end_date s =
     (let rs = owned_in_window uid start_date end_date (table s)
      in (func_sum (map amount rs), func_count rs))"

definition get_spending_summary ::
  "uuid \<Rightarrow> datetime option \<Rightarrow> datetime option \<Rightarrow> session
     \<Rightarrow> SpendingSummaryModel \<times> session" where
  "get_spending_summary uid start_date end_date s =
     (let ((total, cnt), s1) = execute (total_statement uid start_date end_date) s;
          total_spending = float_or_zero total;
          expense_count = count_or_zero cnt;
          (category_breakdown, s2) = get_spending_by_category uid start_date end_date s1
      in (\<lparr>ss_total_spending = total_spending, ss_expense_count = expense_count,
           ss_category_breakdown = category_breakdown,
           ss_start_date = start_date, ss_end_date = end_date\<rparr>, s2))"

section \<open>Monthly statistics\<close>

record ExpenseStatistics =
  es_period :: string
  es_total_spending :: rat
  es_average_expense :: rat
  es_expense_count :: nat
  es_top_category :: "ExpenseCategory option"
  es_top_category_amount :: "rat option"

definition in_month :: "uuid \<Rightarrow> int \<Rightarrow> int \<Rightarrow> Expense list \<Rightarrow> Expense list" where
  "in_month uid year month rs =
     filter (\<lambda>r. user_id r = uid \<and> extract_year (expense_date r) = year \<and>
                 extract_month (expense_date r) = month) rs"

definition month_statement ::
  "uuid \<Rightarrow> int \<Rightarrow> int \<Rightarrow> session \<Rightarrow> rat option \<times> rat option \<times> nat" where
  "month_statement uid year month s =
     (let rs = in_month uid year month (table s)
      in (func_sum (map amount rs), func_avg (map amount rs), func_count rs))"

text \<open>
  \<^verbatim>\<open>GROUP BY category ORDER BY category_total DESC LIMIT 1\<close>, read with \<^verbatim>\<open>.first()\<close>:
  the first row, or \<^verbatim>\<open>None\<close> when there is none.
\<close>

definition first :: "'a list \<Rightarrow> 'a option" where
  "first rows = (case rows of [] \<Rightarrow> None | r # _ \<Rightarrow> Some r)"

definition category_statement ::
  "uuid \<Rightarrow> int \<Rightarrow> int \<Rightarrow> session \<Rightarrow> (ExpenseCategory \<times> rat \<times> nat) option" where
  "category_statement uid year month s =
     first (take 1 (order_by_desc_total (tie_rank s)
                      (group_by_category (in_month uid year month (table s)))))"

definition get_monthly_statistics ::
  "uuid \<Rightarrow> int \<Rightarrow> int \<Rightarrow> session \<Rightarrow> ExpenseStatistics \<times> session" where
  "get_monthly_statistics uid year month s =
     (let ((total, average, cnt), s1) = execute (month_statement uid year month) s;
          (top_category_row, s2) = execute (category_statement uid year month) s1
      in (\<lparr>es_period = str year @ ''-'' @ format_0d 2 month,
           es_total_spending = float_or_zero total,
           es_average_expense = float_or_zero average,
           es_expense_count = count_or_zero cnt,
           es_top_category =
             (case top_category_row of None \<Rightarrow> None | Some (c, t, n) \<Rightarrow> Some c),
           es_top_category_amount =
             (case top_category_row of None \<Rightarrow> None | Some (c, t, n) \<Rightarrow> Some (float t))\<rparr>,
          s2))"

section \<open>Time series\<close>

record ChartDataPointModel =
  dp_period :: string
  dp_total_amount :: rat
  dp_expense_count :: nat

text \<open>
  The three statements of \<^verbatim>\<open>get_expenses_for_visualization\<close> differ in the bucket they
  group by only: \<^verbatim>\<open>GROUP BY\<close> the bucket of \<^verbatim>\<open>expense_date\<close>, \<^verbatim>\<open>ORDER BY\<close> the
  bucket \<^verbatim>\<open>DESC\<close>, \<^verbatim>\<open>LIMIT limit\<close>. A row is the bucket, \<^verbatim>\<open>sum(amount)\<close> and
  \<^verbatim>\<open>count(id)\<close>. No two rows have the same bucket, so the order is fixed.
\<close>

definition group_by_period ::
  "(datetime \<Rightarrow> 'k) \<Rightarrow> Expense list \<Rightarrow> ('k \<times> rat option \<times> nat) list" where
  "group_by_period bucket rs =
     map (\<lambda>k. (k, func_sum (map amount [r \<leftarrow> rs. bucket (expense_date r) = k]),
               func_count [r \<leftarrow> rs. bucket (expense_date r) = k]))
         (remdups (map (\<lambda>r. bucket (expense_date r)) rs))"

definition order_by_desc :: "('k::linorder \<times> 'a) list \<Rightarrow> ('k \<times> 'a) list" where
  "order_by_desc rows = rev (sort_key fst rows)"

definition period_statement ::
  "(datetime \<Rightarrow> 'k::linorder) \<Rightarrow> uuid \<Rightarrow> nat \<Rightarrow> session \<Rightarrow> ('k \<times> rat option \<times> nat) list" where
  "period_statement bucket uid limit s =
     take limit (order_by_desc (group_by_period bucket [r \<leftarrow> table s. user_id r = uid]))"

definition year_month :: "datetime \<Rightarrow> int \<times> int" where
  "year_month d = (extract_year d, extract_month d)"

definition month_point :: "(int \<times> int) \<times> rat option \<times> nat \<Rightarrow> ChartDataPointModel" where
  "month_point row =
     (case row of ((y, m), t, cnt) \<Rightarrow>
        \<lparr>dp_period = str y @ ''-'' @ format_0d 2 m,
         dp_total_amount = float_or_zero t, dp_expense_count = count_or_zero cnt\<rparr>)"

definition year_point :: "int \<times> rat option \<times> nat \<Rightarrow> ChartDataPointModel" where
  "year_point row =
     (case row of (y, t, cnt) \<Rightarrow>
        \<lparr>dp_period = str y,
         dp_total_amount = float_or_zero t, dp_expense_count = count_or_zero cnt\<rparr>)"

definition date_point :: "date \<times> rat option \<times> nat \<Rightarrow> ChartDataPointModel" where
  "date_point row =
     (case row of (d, t, cnt) \<Rightarrow>
        \<lparr>dp_period = str_date d,
         dp_total_amount = float_or_zero t, dp_expense_count = count_or_zero cnt\<rparr>)"

text \<open>
  \<^verbatim>\<open>period_type\<close> is a string; everything but \<^verbatim>\<open>"month"\<close> and \<^verbatim>\<open>"year"\<close> takes the
  last branch. The rows are read in reverse (\<^verbatim>\<open>for row in reversed(rows)\<close>).
\<close>

definition get_expenses_for_visualization ::
  "uuid \<Rightarrow> string \<Rightarrow> nat \<Rightarrow> session \<Rightarrow> ChartDataPointModel list \<times> session" where
  "get_expenses_for_visualization uid period_type limit s =
     (if period_type = ''month'' then
        (let (rows, s') = execute (period_statement year_month uid limit) s
         in (map month_point (rev rows), s'))
      else if period_type = ''year'' then
        (let (rows, s') = execute (period_statement extract_year uid limit) s
         in (map year_point (rev rows), s'))
      else
        (let (rows, s') = execute (period_statement func_date uid limit) s
         in (map date_point (rev rows), s')))"

section \<open>Category chart\<close>





section \<open>Route handlers\<close>

text \<open>
  A handler gets the authenticated user from the dependency \<^verbatim>\<open>get_current_user\<close>, which
  is not part of these sources: the user's id is an argument. The bounds declared with
  \<^verbatim>\<open>Query(ge=..., le=...)\<close> are checked by the framework before the handler's body runs
  and answered with status 422; \<^verbatim>\<open>HTTPException\<close> carries the status and the detail the
  handler raises.
\<close>

datatype http_error = RequestValidationError | HTTPException nat string

subsection \<open>Listing\<close>

record ExpenseListResponseModel =
  lr_expenses :: "Expense list"
  lr_total :: nat
  lr_page :: int
  lr_page_size :: int
  lr_total_pages :: int

text \<open>
  The filters of \<^verbatim>\<open>get_user_expenses\<close>. \<^verbatim>\<open>if category:\<close>, \<^verbatim>\<open>if search:\<close>: \<^verbatim>\<open>None\<close> and
  the empty string skip the filter. A NULL description matches nothing.
\<close>

definition matches ::
  "session \<Rightarrow> uuid \<Rightarrow> ExpenseCategory option \<Rightarrow> datetime option \<Rightarrow> datetime option
     \<Rightarrow> string option \<Rightarrow> Expense \<Rightarrow> bool" where
  "matches s uid cat start_date end_date search r =
     (user_id r = uid \<and>
      (case cat of None \<Rightarrow> True | Some c \<Rightarrow> category r = c) \<and>
      in_window start_date end_date r \<and>
      (case search of None \<Rightarrow> True
       | Some q \<Rightarrow>
           (if q = [] then True
            else (let search_pattern = ''%'' @ q @ ''%''
                  in ilike s (title r) search_pattern \<or>
                     (case description r of None \<Rightarrow> False
                      | Some d \<Rightarrow> ilike s d search_pattern)))))"

definition count_statement ::
  "uuid \<Rightarrow> ExpenseCategory option \<Rightarrow> datetime option \<Rightarrow> datetime option \<Rightarrow> string option
     \<Rightarrow> session \<Rightarrow> nat" where
  "count_statement uid cat start_date end_date search s =
     func_count (filter (matches s uid cat start_date end_date search) (table s))"

text \<open>
  \<^verbatim>\<open>ORDER BY expense_date DESC OFFSET skip LIMIT limit\<close>. Rows of the same date come in
  the reverse of their order in the table; nothing below depends on that choice.
\<close>

definition page_statement ::
  "uuid \<Rightarrow> nat \<Rightarrow> nat \<Rightarrow> ExpenseCategory option \<Rightarrow> datetime option \<Rightarrow> datetime option
     \<Rightarrow> string option \<Rightarrow> session \<Rightarrow> Expense list" where
  "page_statement uid skip limit cat start_date end_date search s =
     take limit (drop skip
       (rev (sort_key expense_date
          (filter (matches s uid cat start_date end_date search) (table s)))))"

definition get_user_expenses ::
  "uuid \<Rightarrow> nat \<Rightarrow> nat \<Rightarrow> ExpenseCategory option \<Rightarrow> datetime option \<Rightarrow> datetime option
     \<Rightarrow> string option \<Rightarrow> session \<Rightarrow> (Expense list \<times> nat) \<times> session" where
  "get_user_expenses uid skip limit cat start_date end_date search s =
     (let (cnt, s1) = execute (count_statement uid cat start_date end_date search) s;
          total_count = (if cnt \<noteq> 0 then cnt else 0);
          (expenses, s2) =
             execute (page_statement uid skip limit cat start_date end_date search) s1
      in ((expenses, total_count), s2))"

text \<open>
  \<^verbatim>\<open>math.ceil(total_count / page_size) if total_count > 0 else 0\<close>
\<close>

definition total_pages :: "nat \<Rightarrow> int \<Rightarrow> int" where
  "total_pages total_count page_size =
     (if total_count > 0 then \<lceil>rat_of_nat total_count / rat_of_int page_size\<rceil> else 0)"

definition get_expenses ::
  "int \<Rightarrow> int \<Rightarrow> ExpenseCategory option \<Rightarrow> datetime option \<Rightarrow> datetime option
     \<Rightarrow> string option \<Rightarrow> uuid \<Rightarrow> session \<Rightarrow> (http_error + ExpenseListResponseModel) \<times> session" where
  "get_expenses page page_size cat start_date end_date search current_user s =
     (if page < 1 \<or> page_size < 1 \<or> 100 < page_size then (Inl RequestValidationError, s)
      else
        (let skip = (page - 1) * page_size;
             ((expenses, total_count), s') =
                get_user_expenses current_user (nat skip) (nat page_size)
                  cat start_date end_date search s
         in (Inr \<lparr>lr_expenses = expenses, lr_total = total_count, lr_page = page,
                  lr_page_size = page_size,
                  lr_total_pages = total_pages total_count page_size\<rparr>, s')))"

subsection \<open>Time series\<close>

record ChartVisualizationResponseModel =
  cv_period_type :: string
  cv_data_points :: "ChartDataPointModel list"
  cv_total_periods :: nat
  cv_total_spending :: rat
  cv_average_spending :: rat

definition get_visualization_data ::
  "string \<Rightarrow> int \<Rightarrow> uuid \<Rightarrow> session
     \<Rightarrow> (http_error + ChartVisualizationResponseModel) \<times> session" where
  "get_visualization_data period_type limit current_user s =
     (if limit < 1 \<or> 100 < limit then (Inl RequestValidationError, s)
      else if period_type \<notin> set [''day'', ''week'', ''month'', ''year''] then
        (Inl (HTTPException 400
                ''Invalid period_type. Must be one of: day, week, month, year''), s)
      else
        (let (data_points, s') =
                get_expenses_for_visualization current_user period_type (nat limit) s;
             total_spending = sum_list (map dp_total_amount data_points);
             average_spending =
               (if data_points \<noteq> [] then total_spending / rat_of_nat (length data_points)
                else 0)
         in (Inr \<lparr>cv_period_type = period_type, cv_data_points = data_points,
                  cv_total_periods = length data_points,
                  cv_total_spending = total_spending,
                  cv_average_spending = average_spending\<rparr>, s')))"

subsection \<open>Category chart\<close>




text \<open>
  The ordering contract of the time series, for rows (bucket, sum, count) computed over the
  records \<open>rs\<close>: the buckets ascend strictly; there are at most \<open>limit\<close> rows; every row is
  a bucket that holds at least one record, with the count and the sum of the amounts of its
  records; and a bucket of a record that is not among the rows is older than every row,
  which only happens when \<open>limit\<close> rows are returned.
\<close>

definition most_recent_ascending ::
  "(datetime \<Rightarrow> 'k::linorder) \<Rightarrow> Expense list \<Rightarrow> nat \<Rightarrow> ('k \<times> rat option \<times> nat) list
     \<Rightarrow> bool" where
  "most_recent_ascending bucket rs limit rows \<longleftrightarrow>
     sorted_wrt (<) (map fst rows) \<and>
     length rows \<le> limit \<and>
     (\<forall>(k, t, n)\<in>set rows.
         0 < n \<and> n = length [r \<leftarrow> rs. bucket (expense_date r) = k] \<and>
         t = Some (numeric (sum_list (map amount [r \<leftarrow> rs. bucket (expense_date r) = k])))) \<and>
     (\<forall>r\<in>set rs. bucket (expense_date r) \<notin> fst ` set rows \<longrightarrow>
         length rows = limit \<and> (\<forall>k\<in>fst ` set rows. bucket (expense_date r) < k))"

section \<open>Example stores\<close>

definition expense :: "uuid \<Rightarrow> uuid \<Rightarrow> int \<Rightarrow> ExpenseCategory \<Rightarrow> datetime \<Rightarrow> Expense" where
  "expense i u a c d =
     \<lparr>expense_id = i, user_id = u, title = ''expense'', amount = a, category = c,
      description = None, expense_date = d\<rparr>"

text \<open>
  User 7 has the records of the example in the testable properties (Food 10.00, Food 5.00,
  Transport 15.00) and one more in Rent; user 8 has one record; user 9 has none.
\<close>

definition example_session :: session where
  "example_session =
     \<lparr>table = [expense 1 7 1000 FOOD (2025, 3, 1, 0), expense 2 7 500 FOOD (2025, 3, 2, 0),
               expense 3 7 1500 TRANSPORT (2025, 4, 2, 0), expense 4 8 99 RENT (2024, 1, 1, 0),
               expense 5 7 25 RENT (2024, 12, 31, 5)],
      tie_rank = (\<lambda>c. 0), ilike = (\<lambda>text pattern. False), executed = 0\<rparr>"

text \<open>The same table on an engine that emits Transport before the other categories.\<close>

definition example_session' :: session where
  "example_session' = example_session\<lparr>tie_rank := (\<lambda>c. if c = TRANSPORT then 0 else 1)\<rparr>"



section \<open>Properties\<close>

subsection \<open>Executing a statement\<close>

lemma fst_execute: "fst (execute q s) = q s"
  by (simp add: execute_def)

lemma snd_execute: "snd (execute q s) = s\<lparr>executed := Suc (executed s)\<rparr>"
  by (simp add: execute_def)

lemma spending_statement_executed:
  "spending_by_category_statement uid st en (s\<lparr>executed := n\<rparr>) =
     spending_by_category_statement uid st en s"
  by (simp add: spending_by_category_statement_def)

lemma fst_get_spending_by_category:
  "fst (get_spending_by_category uid st en s) =
     map (\<lambda>(c, t, n). \<lparr>cs_category = c, cs_total_amount = float t, cs_expense_count = n\<rparr>)
       (spending_by_category_statement uid st en s)"
  by (simp add: get_spending_by_category_def execute_def)

lemma fst_get_spending_summary:
  "fst (get_spending_summary uid st en s) =
     \<lparr>ss_total_spending =
        float_or_zero (func_sum (map amount (owned_in_window uid st en (table s)))),
      ss_expense_count = count_or_zero (func_count (owned_in_window uid st en (table s))),
      ss_category_breakdown = fst (get_spending_by_category uid st en s),
      ss_start_date = st, ss_end_date = en\<rparr>"
  by (simp add: get_spending_summary_def execute_def total_statement_def Let_def
      case_prod_unfold fst_get_spending_by_category spending_statement_executed)

subsection \<open>Sums over the groups of a GROUP BY\<close>

lemma sum_list_indicator:
  "distinct ks \<Longrightarrow>
     (\<Sum>k\<leftarrow>ks. if k = a then (v::'b::comm_monoid_add) else 0) = (if a \<in> set ks then v else 0)"
  by (induction ks) auto

lemma sum_list_grouped:
  fixes f :: "'r \<Rightarrow> 'b::comm_monoid_add"
  assumes "distinct ks" "key ` set rs \<subseteq> set ks"
  shows "(\<Sum>k\<leftarrow>ks. sum_list (map f [r \<leftarrow> rs. key r = k])) = sum_list (map f rs)"
  using assms(2)
proof (induction rs)
  case Nil
  then show ?case by simp
next
  case (Cons r rs)
  have "(\<Sum>k\<leftarrow>ks. sum_list (map f [x \<leftarrow> r # rs. key x = k]))
      = (\<Sum>k\<leftarrow>ks. (if k = key r then f r else 0) + sum_list (map f [x \<leftarrow> rs. key x = k]))"
    by (rule arg_cong[where f = sum_list], rule map_cong) auto
  also have "\<dots> = (\<Sum>k\<leftarrow>ks. if k = key r then f r else 0)
                 + (\<Sum>k\<leftarrow>ks. sum_list (map f [x \<leftarrow> rs. key x = k]))"
    by (simp add: sum_list_addf)
  also have "\<dots> = f r + sum_list (map f rs)"
    using Cons assms(1) by (simp add: sum_list_indicator)
  finally show ?case by simp
qed

lemma sum_list_Suc_0: "sum_list (map (\<lambda>_. Suc 0) xs) = length xs"
  by (induction xs) auto

lemma length_grouped:
  assumes "distinct ks" "key ` set rs \<subseteq> set ks"
  shows "(\<Sum>k\<leftarrow>ks. length [r \<leftarrow> rs. key r = k]) = length rs"
  using sum_list_grouped[OF assms, of "\<lambda>_. Suc 0"] by (simp only: sum_list_Suc_0)

lemma sum_list_numeric: "sum_list (map (\<lambda>x. numeric (g x)) xs) = numeric (sum_list (map g xs))"
  by (induction xs) (auto simp: numeric_def add_divide_distrib)

lemma group_by_category_total:
  "(\<Sum>(c, t, n)\<leftarrow>group_by_category rs. t) = numeric (sum_list (map amount rs))"
proof -
  have "(\<Sum>(c, t, n)\<leftarrow>group_by_category rs. t)
      = (\<Sum>c\<leftarrow>remdups (map category rs).
           numeric (sum_list (map amount [r \<leftarrow> rs. category r = c])))"
    by (simp add: group_by_category_def comp_def)
  also have "\<dots> = numeric (\<Sum>c\<leftarrow>remdups (map category rs).
                         sum_list (map amount [r \<leftarrow> rs. category r = c]))"
    by (rule sum_list_numeric)
  also have "\<dots> = numeric (sum_list (map amount rs))"
    using sum_list_grouped[of "remdups (map category rs)" category rs amount] by simp
  finally show ?thesis .
qed

lemma group_by_category_count:
  "(\<Sum>(c, t, n)\<leftarrow>group_by_category rs. n) = length rs"
  using length_grouped[of "remdups (map category rs)" category rs]
  by (simp add: group_by_category_def comp_def func_count_def)

lemma mset_order_by_desc_total: "mset (order_by_desc_total rank rows) = mset rows"
  by (simp add: order_by_desc_total_def)

lemma sum_list_order_by:
  fixes g :: "ExpenseCategory \<times> rat \<times> nat \<Rightarrow> 'b::comm_monoid_add"
  shows "sum_list (map g (order_by_desc_total rank rows)) = sum_list (map g rows)"
proof -
  have "mset (map g (order_by_desc_total rank rows)) = mset (map g rows)"
    using mset_order_by_desc_total[of rank rows] by (metis mset_map)
  then show ?thesis by (metis sum_mset_sum_list)
qed

lemma category_totals_sum:
  "sum_list (map cs_total_amount (fst (get_spending_by_category uid st en s)))
     = numeric (sum_list (map amount (owned_in_window uid st en (table s))))"
proof -
  let ?rows = "spending_by_category_statement uid st en s"
  have "sum_list (map cs_total_amount (fst (get_spending_by_category uid st en s)))
      = sum_list (map (\<lambda>(c, t, n). t) ?rows)"
    by (simp add: fst_get_spending_by_category comp_def case_prod_unfold float_def)
  also have "\<dots> = numeric (sum_list (map amount (owned_in_window uid st en (table s))))"
    by (simp add: spending_by_category_statement_def sum_list_order_by group_by_category_total)
  finally show ?thesis .
qed

lemma category_counts_sum:
  "sum_list (map cs_expense_count (fst (get_spending_by_category uid st en s)))
     = length (owned_in_window uid st en (table s))"
proof -
  let ?rows = "spending_by_category_statement uid st en s"
  have "sum_list (map cs_expense_count (fst (get_spending_by_category uid st en s)))
      = sum_list (map (\<lambda>(c, t, n). n) ?rows)"
    by (simp add: fst_get_spending_by_category comp_def case_prod_unfold)
  also have "\<dots> = length (owned_in_window uid st en (table s))"
    by (simp add: spending_by_category_statement_def sum_list_order_by group_by_category_count)
  finally show ?thesis .
qed

lemma float_or_zero_func_sum: "float_or_zero (func_sum xs) = numeric (sum_list xs)"
  by (simp add: float_or_zero_def func_sum_def float_def numeric_def)

subsection \<open>The order of the category rows\<close>

lemma sorted_order_by_desc_total:
  "sorted_wrt (\<ge>) (map (\<lambda>(c, t, n). t) (order_by_desc_total rank rows))"
proof -
  let ?key = "\<lambda>(c, t, n). (- t, rank c)"
  let ?out = "order_by_desc_total rank rows"
  have "sorted (map ?key ?out)"
    unfolding order_by_desc_total_def by (rule sorted_sort_key)
  then have "sorted_wrt (\<lambda>x y. ?key x \<le> ?key y) ?out"
    by (simp add: sorted_map)
  then have "sorted_wrt (\<lambda>x y. fst (snd x) \<ge> fst (snd y)) ?out"
    by (rule sorted_wrt_mono_rel[rotated]) (auto simp: less_eq_prod_def)
  then show ?thesis
    by (simp add: sorted_wrt_map case_prod_unfold)
qed

lemma category_rows_sorted_desc:
  "sorted_wrt (\<ge>) (map cs_total_amount (fst (get_spending_by_category uid st en s)))"
  using sorted_order_by_desc_total[of "tie_rank s"
      "group_by_category (owned_in_window uid st en (table s))"]
  by (simp add: fst_get_spending_by_category spending_by_category_statement_def
      comp_def case_prod_unfold float_def)

lemma group_by_category_Nil: "group_by_category [] = []"
  by (simp add: group_by_category_def)

lemma order_by_desc_total_Nil: "order_by_desc_total rank [] = []"
  by (simp add: order_by_desc_total_def)

lemma get_spending_by_category_empty:
  "owned_in_window uid st en (table s) = [] \<Longrightarrow> fst (get_spending_by_category uid st en s) = []"
  by (simp add: fst_get_spending_by_category spending_by_category_statement_def
      group_by_category_Nil order_by_desc_total_Nil)

subsection \<open>Category totals against the summary\<close>

text \<open>
  Claim C3. For every store, owner and date window, the per-category totals that
  group-by-category returns add up to the total spending of the summary over the same
  window, and the per-category counts add up to its expense count; the breakdown of the
  summary is that same list.
\<close>

theorem category_totals_add_up_to_summary:
  "sum_list (map cs_total_amount (fst (get_spending_by_category uid st en s)))
     = ss_total_spending (fst (get_spending_summary uid st en s)) \<and>
   sum_list (map cs_expense_count (fst (get_spending_by_category uid st en s)))
     = ss_expense_count (fst (get_spending_summary uid st en s)) \<and>
   ss_category_breakdown (fst (get_spending_summary uid st en s))
     = fst (get_spending_by_category uid st en s)"
  by (simp add: fst_get_spending_summary category_totals_sum category_counts_sum
      float_or_zero_func_sum count_or_zero_def func_count_def)

subsection \<open>Order of the categories, and the empty record set\<close>

text \<open>
  Claim C7. group-by-category returns its rows by descending total amount. When the owner
  has no record in the window, it returns the empty list, and the summary has total
  spending 0, expense count 0 and an empty breakdown.
\<close>

theorem category_rows_descending_and_empty:
  "sorted_wrt (\<ge>) (map cs_total_amount (fst (get_spending_by_category uid st en s))) \<and>
   (owned_in_window uid st en (table s) = [] \<longrightarrow>
      fst (get_spending_by_category uid st en s) = [] \<and>
      fst (get_spending_summary uid st en s) =
        \<lparr>ss_total_spending = 0, ss_expense_count = 0, ss_category_breakdown = [],
         ss_start_date = st, ss_end_date = en\<rparr>)"
  by (simp add: category_rows_sorted_desc get_spending_by_category_empty
      fst_get_spending_summary float_or_zero_def func_sum_def count_or_zero_def func_count_def)

theorem category_rows_descending_and_empty_witness:
  "owned_in_window 9 None None (table example_session) = [] \<and>
   fst (get_spending_by_category 9 None None example_session) = [] \<and>
   fst (get_spending_summary 9 None None example_session) =
     \<lparr>ss_total_spending = 0, ss_expense_count = 0, ss_category_breakdown = [],
      ss_start_date = None, ss_end_date = None\<rparr> \<and>
   map cs_total_amount (fst (get_spending_by_category 7 None None example_session)) =
     [15, 15, 1 / 4] \<and>
   sorted_wrt (\<ge>) [15, 15, 1 / 4 :: rat]"
proof -
  have none: "owned_in_window 9 None None (table example_session) = []"
    by (simp add: owned_in_window_def example_session_def expense_def)
  have rows: "map cs_total_amount (fst (get_spending_by_category 7 None None example_session))
                = [15, 15, 1 / 4]"
    by code_simp
  show ?thesis
    using none rows
      category_rows_descending_and_empty[of 9 None None example_session]
      category_rows_descending_and_empty[of 7 None None example_session]
    by simp
qed

subsection \<open>Two runs over an unchanged table\<close>

lemma insort_key_same_order:
  assumes "\<forall>y\<in>set ys. (f x \<le> f y) = (g x \<le> g y)"
  shows "insort_key f x ys = insort_key g x ys"
  using assms by (induction ys) auto

lemma sort_key_same_order:
  assumes "\<forall>x\<in>set xs. \<forall>y\<in>set xs. (f x \<le> f y) = (g x \<le> g y)"
  shows "sort_key f xs = sort_key g xs"
  using assms
proof (induction xs)
  case Nil
  then show ?case by simp
next
  case (Cons x xs)
  then have IH: "sort_key f xs = sort_key g xs" by simp
  have "insort_key f x (sort_key g xs) = insort_key g x (sort_key g xs)"
    by (rule insort_key_same_order) (use Cons.prems in simp)
  with IH show ?case by simp
qed

lemma order_by_desc_total_no_ties:
  assumes "inj_on (\<lambda>(c, t, n). t) (set rows)"
  shows "order_by_desc_total rank rows = order_by_desc_total rank' rows"
  unfolding order_by_desc_total_def
proof (rule sort_key_same_order, intro ballI)
  fix x y assume xy: "x \<in> set rows" "y \<in> set rows"
  obtain c t n where x: "x = (c, t, n)" by (cases x) auto
  obtain c' t' n' where y: "y = (c', t', n')" by (cases y) auto
  have "t = t' \<Longrightarrow> x = y"
    using assms xy by (auto simp: inj_on_def x y)
  then show "((case x of (c, t, n) \<Rightarrow> (- t, rank c)) \<le> (case y of (c, t, n) \<Rightarrow> (- t, rank c)))
           = ((case x of (c, t, n) \<Rightarrow> (- t, rank' c)) \<le> (case y of (c, t, n) \<Rightarrow> (- t, rank' c)))"
    by (auto simp: x y less_eq_prod_def)
qed

lemma distinct_totals_before_order:
  assumes "distinct (map (\<lambda>(c, t, n). t) (order_by_desc_total rank rows))"
  shows "inj_on (\<lambda>(c, t, n). t) (set rows)"
proof -
  have "mset (map (\<lambda>(c, t, n). t) (order_by_desc_total rank rows))
      = mset (map (\<lambda>(c, t, n). t) rows)"
    using mset_order_by_desc_total[of rank rows] by (metis mset_map)
  then have "distinct (map (\<lambda>(c, t, n). t) rows)"
    using assms by (metis mset_eq_imp_distinct_iff)
  then show ?thesis by (simp add: distinct_map)
qed

lemma mset_get_spending_by_category:
  assumes "table s = table s'"
  shows "mset (fst (get_spending_by_category uid st en s))
       = mset (fst (get_spending_by_category uid st en s'))"
  using assms
  by (simp add: fst_get_spending_by_category spending_by_category_statement_def
      mset_order_by_desc_total)

lemma get_spending_by_category_no_ties:
  assumes "table s = table s'"
    and "distinct (map cs_total_amount (fst (get_spending_by_category uid st en s)))"
  shows "fst (get_spending_by_category uid st en s) = fst (get_spending_by_category uid st en s')"
proof -
  let ?rows = "group_by_category (owned_in_window uid st en (table s))"
  have "distinct (map (\<lambda>(c, t, n). t) (order_by_desc_total (tie_rank s) ?rows))"
    using assms(2)
    by (simp add: fst_get_spending_by_category spending_by_category_statement_def
        comp_def case_prod_unfold float_def)
  then have "inj_on (\<lambda>(c, t, n). t) (set ?rows)"
    by (rule distinct_totals_before_order)
  then have "order_by_desc_total (tie_rank s) ?rows = order_by_desc_total (tie_rank s') ?rows"
    by (rule order_by_desc_total_no_ties)
  then show ?thesis
    using assms(1)
    by (simp add: fst_get_spending_by_category spending_by_category_statement_def)
qed

text \<open>
  Claim C8, as stated: two runs of group-by-category over an unchanged record set return
  the same list, categories of equal total included. The statement only orders by the
  total, so the order of the categories that tie is the engine's: over the same table, an
  engine that emits Transport first and one that emits Food first return different lists
  for the records Food 10.00, Food 5.00, Transport 15.00.
\<close>

theorem tie_order_counterexample:
  "table example_session' = table example_session \<and>
   fst (get_spending_by_category 7 None None example_session') \<noteq>
   fst (get_spending_by_category 7 None None example_session)"
  by code_simp

text \<open>
  Claim C8, amended. Two runs over the same table return the same rows: the same
  categories with the same totals and counts, as multisets. The two lists are equal when the
  engine breaks ties the same way in both runs, and also whenever no two categories have
  the same total.
\<close>

theorem two_runs_same_rows:
  assumes "table s = table s'"
  shows "mset (fst (get_spending_by_category uid st en s))
           = mset (fst (get_spending_by_category uid st en s')) \<and>
         (tie_rank s = tie_rank s' \<longrightarrow>
            fst (get_spending_by_category uid st en s)
              = fst (get_spending_by_category uid st en s')) \<and>
         (distinct (map cs_total_amount (fst (get_spending_by_category uid st en s))) \<longrightarrow>
            fst (get_spending_by_category uid st en s)
              = fst (get_spending_by_category uid st en s'))"
  using assms mset_get_spending_by_category[OF assms]
    get_spending_by_category_no_ties[OF assms]
  by (simp add: fst_get_spending_by_category spending_by_category_statement_def)

theorem two_runs_same_rows_witness:
  "table example_session = table example_session' \<and>
   tie_rank example_session = tie_rank (example_session\<lparr>executed := 1\<rparr>) \<and>
   map cs_total_amount
     (fst (get_spending_by_category 7 (Some (2025, 3, 2, 0)) None example_session)) = [15, 5] \<and>
   distinct [15, 5 :: rat] \<and>
   fst (get_spending_by_category 7 (Some (2025, 3, 2, 0)) None example_session)
     = fst (get_spending_by_category 7 (Some (2025, 3, 2, 0)) None example_session') \<and>
   fst (get_spending_by_category 7 None None example_session)
     = fst (get_spending_by_category 7 None None (example_session\<lparr>executed := 1\<rparr>)) \<and>
   mset (fst (get_spending_by_category 7 None None example_session))
     = mset (fst (get_spending_by_category 7 None None example_session'))"
proof -
  let ?w = "Some (2025, 3, 2, 0)"
  have same: "table example_session = table example_session'"
    by (simp add: example_session'_def)
  have same1: "table example_session = table (example_session\<lparr>executed := 1\<rparr>)"
    by simp
  have rank1: "tie_rank example_session = tie_rank (example_session\<lparr>executed := 1\<rparr>)"
    by simp
  have totals: "map cs_total_amount
      (fst (get_spending_by_category 7 ?w None example_session)) = [15, 5]"
    by code_simp
  have dist: "distinct [15, 5 :: rat]"
    by simp
  have "distinct (map cs_total_amount (fst (get_spending_by_category 7 ?w None example_session)))"
    unfolding totals by (rule dist)
  with two_runs_same_rows[OF same, of 7 ?w None]
  have eq_window: "fst (get_spending_by_category 7 ?w None example_session)
                 = fst (get_spending_by_category 7 ?w None example_session')"
    by blast
  from two_runs_same_rows[OF same1, of 7 None None] rank1
  have eq_rank: "fst (get_spending_by_category 7 None None example_session)
               = fst (get_spending_by_category 7 None None (example_session\<lparr>executed := 1\<rparr>))"
    by blast
  from two_runs_same_rows[OF same, of 7 None None]
  have eq_mset: "mset (fst (get_spending_by_category 7 None None example_session))
               = mset (fst (get_spending_by_category 7 None None example_session'))"
    by blast
  from same rank1 totals dist eq_window eq_rank eq_mset show ?thesis
    by (intro conjI)
qed

subsection \<open>Percentages of the category chart\<close>















subsection \<open>The time series\<close>

lemma fst_get_expenses_for_visualization:
  "fst (get_expenses_for_visualization uid period_type limit s) =
     (if period_type = ''month'' then
        map month_point (rev (period_statement year_month uid limit s))
      else if period_type = ''year'' then
        map year_point (rev (period_statement extract_year uid limit s))
      else map date_point (rev (period_statement func_date uid limit s)))"
  by (simp add: get_expenses_for_visualization_def execute_def)

lemma snd_get_expenses_for_visualization:
  "snd (get_expenses_for_visualization uid period_type limit s) =
     s\<lparr>executed := Suc (executed s)\<rparr>"
  by (simp add: get_expenses_for_visualization_def execute_def)

lemma rev_take_rev: "rev (take n (rev xs)) = drop (length xs - n) xs"
  by (simp add: take_rev)

lemma map_fst_group_by_period:
  "map fst (group_by_period bucket rs) = remdups (map (\<lambda>r. bucket (expense_date r)) rs)"
  by (simp add: group_by_period_def comp_def)

lemma group_by_period_row:
  assumes "(k, t, n) \<in> set (group_by_period bucket rs)"
  shows "0 < n \<and> n = length [r \<leftarrow> rs. bucket (expense_date r) = k] \<and>
         t = Some (numeric (sum_list (map amount [r \<leftarrow> rs. bucket (expense_date r) = k])))"
proof -
  from assms have k: "k \<in> (\<lambda>r. bucket (expense_date r)) ` set rs"
    and n: "n = length [r \<leftarrow> rs. bucket (expense_date r) = k]"
    and t: "t = func_sum (map amount [r \<leftarrow> rs. bucket (expense_date r) = k])"
    by (auto simp: group_by_period_def func_count_def)
  from k have "[r \<leftarrow> rs. bucket (expense_date r) = k] \<noteq> []"
    by (auto simp: filter_empty_conv)
  with n t show ?thesis
    by (simp add: func_sum_def)
qed

lemma period_statement_rev:
  "rev (period_statement bucket uid limit s) =
     drop (length (group_by_period bucket [r \<leftarrow> table s. user_id r = uid]) - limit)
       (sort_key fst (group_by_period bucket [r \<leftarrow> table s. user_id r = uid]))"
  by (simp add: period_statement_def order_by_desc_def rev_take_rev)

lemma strict_sorted_groups:
  "sorted_wrt (<) (map fst (sort_key fst (group_by_period bucket rs)))"
proof -
  have "distinct (map fst (group_by_period bucket rs))"
    by (simp add: map_fst_group_by_period)
  then have "distinct (map fst (sort_key fst (group_by_period bucket rs)))"
    by (simp add: distinct_map)
  moreover have "sorted (map fst (sort_key fst (group_by_period bucket rs)))"
    by (rule sorted_sort_key)
  ultimately show ?thesis
    by (simp add: strict_sorted_iff)
qed

lemma period_rows_most_recent_ascending:
  "most_recent_ascending bucket [r \<leftarrow> table s. user_id r = uid] limit
     (rev (period_statement bucket uid limit s))"
proof -
  let ?rs = "[r \<leftarrow> table s. user_id r = uid]"
  let ?S = "sort_key fst (group_by_period bucket ?rs)"
  let ?m = "length (group_by_period bucket ?rs) - limit"
  let ?rows = "drop ?m ?S"
  have rows: "rev (period_statement bucket uid limit s) = ?rows"
    by (rule period_statement_rev)
  have "map fst ?S = map fst (take ?m ?S) @ map fst ?rows"
    by (simp only: map_append[symmetric] append_take_drop_id)
  then have "sorted_wrt (<) (map fst (take ?m ?S) @ map fst ?rows)"
    using strict_sorted_groups[of bucket ?rs] by (simp only:)
  then have asc: "sorted_wrt (<) (map fst ?rows)"
    and before: "\<forall>a\<in>set (map fst (take ?m ?S)). \<forall>b\<in>set (map fst ?rows). a < b"
    unfolding sorted_wrt_append by blast+
  have len: "length ?rows \<le> limit"
    by simp
  have row: "\<forall>(k, t, n)\<in>set ?rows.
      0 < n \<and> n = length [r \<leftarrow> ?rs. bucket (expense_date r) = k] \<and>
      t = Some (numeric (sum_list (map amount [r \<leftarrow> ?rs. bucket (expense_date r) = k])))"
  proof (clarify)
    fix k t n assume "(k, t, n) \<in> set ?rows"
    then have "(k, t, n) \<in> set ?S"
      by (rule in_set_dropD)
    then have "(k, t, n) \<in> set (group_by_period bucket ?rs)"
      by simp
    then show "0 < n \<and> n = length [r \<leftarrow> ?rs. bucket (expense_date r) = k] \<and>
      t = Some (numeric (sum_list (map amount [r \<leftarrow> ?rs. bucket (expense_date r) = k])))"
      by (rule group_by_period_row)
  qed
  have recent: "\<forall>r\<in>set ?rs. bucket (expense_date r) \<notin> fst ` set ?rows \<longrightarrow>
      length ?rows = limit \<and> (\<forall>k\<in>fst ` set ?rows. bucket (expense_date r) < k)"
  proof (intro ballI impI)
    fix r assume r: "r \<in> set ?rs" and out: "bucket (expense_date r) \<notin> fst ` set ?rows"
    have "bucket (expense_date r) \<in> set (map fst (group_by_period bucket ?rs))"
      using r by (simp only: map_fst_group_by_period set_remdups set_map) (rule imageI)
    then have "bucket (expense_date r) \<in> fst ` set ?S"
      by simp
    moreover have "set ?S = set (take ?m ?S) \<union> set ?rows"
      by (metis append_take_drop_id set_append)
    ultimately have "bucket (expense_date r) \<in> fst ` set (take ?m ?S) \<union> fst ` set ?rows"
      by (simp only: image_Un)
    with out have older: "bucket (expense_date r) \<in> fst ` set (take ?m ?S)"
      by blast
    then have "take ?m ?S \<noteq> []"
      by auto
    then have "0 < ?m"
      by (cases ?m) auto
    then have full: "length ?rows = limit"
      by simp
    have "\<forall>k\<in>fst ` set ?rows. bucket (expense_date r) < k"
      using before older by (simp only: set_map) blast
    with full show "length ?rows = limit \<and> (\<forall>k\<in>fst ` set ?rows. bucket (expense_date r) < k)"
      by simp
  qed
  show ?thesis
    unfolding most_recent_ascending_def rows
    using asc len row recent by (intro conjI)
qed

lemma period_rows_length: "length (period_statement bucket uid limit s) \<le> limit"
  by (simp add: period_statement_def)

lemma period_rows_count:
  assumes "(k, t, n) \<in> set (period_statement bucket uid limit s)"
  shows "0 < n"
proof -
  have "(k, t, n) \<in> set (order_by_desc (group_by_period bucket [r \<leftarrow> table s. user_id r = uid]))"
    using assms unfolding period_statement_def by (rule in_set_takeD)
  then have "(k, t, n) \<in> set (group_by_period bucket [r \<leftarrow> table s. user_id r = uid])"
    by (simp add: order_by_desc_def)
  then show ?thesis
    by (rule group_by_period_row[THEN conjunct1])
qed

lemma data_points_length:
  "length (fst (get_expenses_for_visualization uid period_type limit s)) \<le> limit"
  by (simp add: fst_get_expenses_for_visualization period_rows_length)

lemma point_counts:
  "dp_expense_count (month_point (km, t, n)) = n"
  "dp_expense_count (year_point (ky, t, n)) = n"
  "dp_expense_count (date_point (kd, t, n)) = n"
  by (simp_all add: month_point_def year_point_def date_point_def count_or_zero_def
      case_prod_unfold)

lemma data_points_count:
  assumes "p \<in> set (fst (get_expenses_for_visualization uid period_type limit s))"
  shows "0 < dp_expense_count p"
proof -
  consider (month) "period_type = ''month''"
    | (year) "period_type \<noteq> ''month''" "period_type = ''year''"
    | (date) "period_type \<noteq> ''month''" "period_type \<noteq> ''year''"
    by blast
  then show ?thesis
  proof cases
    case month
    with assms obtain row where "row \<in> set (period_statement year_month uid limit s)"
      and "p = month_point row"
      by (auto simp: fst_get_expenses_for_visualization)
    then show ?thesis
      using period_rows_count[of "fst row" "fst (snd row)" "snd (snd row)" year_month]
        point_counts(1)[of "fst row" "fst (snd row)" "snd (snd row)"]
      by simp
  next
    case year
    with assms obtain row where "row \<in> set (period_statement extract_year uid limit s)"
      and "p = year_point row"
      by (auto simp: fst_get_expenses_for_visualization)
    then show ?thesis
      using period_rows_count[of "fst row" "fst (snd row)" "snd (snd row)" extract_year]
        point_counts(2)[of "fst row" "fst (snd row)" "snd (snd row)"]
      by simp
  next
    case date
    with assms obtain row where "row \<in> set (period_statement func_date uid limit s)"
      and "p = date_point row"
      by (auto simp: fst_get_expenses_for_visualization)
    then show ?thesis
      using period_rows_count[of "fst row" "fst (snd row)" "snd (snd row)" func_date]
        point_counts(3)[of "fst row" "fst (snd row)" "snd (snd row)"]
      by simp
  qed
qed

text \<open>
  Claim C1. For every owner and limit, the time series has at most \<open>limit\<close> data points
  and every data point counts at least one expense. For each of the four period types, the
  data points are the rows of the statement read in reverse, and these rows are the most
  recent non-empty buckets in ascending chronological order: by (year, month) for
  \<open>month\<close>, by year for \<open>year\<close>, by calendar date for \<open>day\<close> and \<open>week\<close>.
\<close>

theorem time_series_most_recent_ascending:
  "let out = fst (get_expenses_for_visualization uid period_type limit s);
       rs = [r \<leftarrow> table s. user_id r = uid]
   in length out \<le> limit \<and>
      (\<forall>p\<in>set out. 0 < dp_expense_count p) \<and>
      (period_type = ''month'' \<longrightarrow>
         out = map month_point (rev (period_statement year_month uid limit s)) \<and>
         most_recent_ascending year_month rs limit
           (rev (period_statement year_month uid limit s))) \<and>
      (period_type = ''year'' \<longrightarrow>
         out = map year_point (rev (period_statement extract_year uid limit s)) \<and>
         most_recent_ascending extract_year rs limit
           (rev (period_statement extract_year uid limit s))) \<and>
      (period_type = ''day'' \<or> period_type = ''week'' \<longrightarrow>
         out = map date_point (rev (period_statement func_date uid limit s)) \<and>
         most_recent_ascending func_date rs limit
           (rev (period_statement func_date uid limit s)))"
proof -
  have month: "period_type = ''month'' \<Longrightarrow>
      fst (get_expenses_for_visualization uid period_type limit s)
        = map month_point (rev (period_statement year_month uid limit s))"
    and year: "period_type = ''year'' \<Longrightarrow>
      fst (get_expenses_for_visualization uid period_type limit s)
        = map year_point (rev (period_statement extract_year uid limit s))"
    and date: "period_type = ''day'' \<or> period_type = ''week'' \<Longrightarrow>
      fst (get_expenses_for_visualization uid period_type limit s)
        = map date_point (rev (period_statement func_date uid limit s))"
    by (auto simp: fst_get_expenses_for_visualization)
  show ?thesis
    unfolding Let_def
    using data_points_length[of uid period_type limit s]
      data_points_count[of _ uid period_type limit s]
      period_rows_most_recent_ascending[where bucket = year_month and s = s and uid = uid
        and limit = limit]
      period_rows_most_recent_ascending[where bucket = extract_year and s = s and uid = uid
        and limit = limit]
      period_rows_most_recent_ascending[where bucket = func_date and s = s and uid = uid
        and limit = limit]
      month year date
    by (intro conjI) blast+
qed

theorem time_series_most_recent_ascending_witness:
  "map dp_period (fst (get_expenses_for_visualization 7 ''month'' 2 example_session))
     = [''2025-03'', ''2025-04''] \<and>
   map fst (rev (period_statement year_month 7 2 example_session)) = [(2025, 3), (2025, 4)] \<and>
   length (fst (get_expenses_for_visualization 7 ''month'' 2 example_session)) \<le> 2 \<and>
   list_all (\<lambda>p. 0 < dp_expense_count p)
     (fst (get_expenses_for_visualization 7 ''month'' 2 example_session)) \<and>
   most_recent_ascending year_month [r \<leftarrow> table example_session. user_id r = 7] 2
     (rev (period_statement year_month 7 2 example_session)) \<and>
   most_recent_ascending extract_year [r \<leftarrow> table example_session. user_id r = 7] 1
     (rev (period_statement extract_year 7 1 example_session)) \<and>
   fst (get_expenses_for_visualization 7 ''week'' 3 example_session)
     = map date_point (rev (period_statement func_date 7 3 example_session)) \<and>
   most_recent_ascending func_date [r \<leftarrow> table example_session. user_id r = 7] 3
     (rev (period_statement func_date 7 3 example_session))"
proof -
  note month = time_series_most_recent_ascending[of 7 "''month''" 2 example_session,
      unfolded Let_def]
  note year = time_series_most_recent_ascending[of 7 "''year''" 1 example_session,
      unfolded Let_def]
  note week = time_series_most_recent_ascending[of 7 "''week''" 3 example_session,
      unfolded Let_def]
  have labels: "map dp_period (fst (get_expenses_for_visualization 7 ''month'' 2 example_session))
      = [''2025-03'', ''2025-04'']"
    by code_simp
  have buckets: "map fst (rev (period_statement year_month 7 2 example_session))
      = [(2025, 3), (2025, 4)]"
    by code_simp
  from month have len:
    "length (fst (get_expenses_for_visualization 7 ''month'' 2 example_session)) \<le> 2"
    by blast
  from month have "\<forall>p\<in>set (fst (get_expenses_for_visualization 7 ''month'' 2 example_session)).
      0 < dp_expense_count p"
    by blast
  then have counts: "list_all (\<lambda>p. 0 < dp_expense_count p)
      (fst (get_expenses_for_visualization 7 ''month'' 2 example_session))"
    by (simp only: list_all_iff)
  from month have m: "most_recent_ascending year_month
      [r \<leftarrow> table example_session. user_id r = 7] 2
      (rev (period_statement year_month 7 2 example_session))"
    by blast
  from year have y: "most_recent_ascending extract_year
      [r \<leftarrow> table example_session. user_id r = 7] 1
      (rev (period_statement extract_year 7 1 example_session))"
    by blast
  from week have w: "fst (get_expenses_for_visualization 7 ''week'' 3 example_session)
        = map date_point (rev (period_statement func_date 7 3 example_session)) \<and>
      most_recent_ascending func_date [r \<leftarrow> table example_session. user_id r = 7] 3
        (rev (period_statement func_date 7 3 example_session))"
    by blast
  from labels buckets len counts m y w show ?thesis
    by (intro conjI) blast+
qed

subsection \<open>Week and day\<close>

text \<open>
  Claim C9. For every owner, limit and store, the time series for the period type
  \<open>week\<close> is the one for \<open>day\<close>: both group by the calendar date, and label every bucket
  with the ISO date string.
\<close>

theorem week_is_day:
  "get_expenses_for_visualization uid ''week'' limit s
     = get_expenses_for_visualization uid ''day'' limit s \<and>
   fst (get_expenses_for_visualization uid ''day'' limit s)
     = map date_point (rev (period_statement func_date uid limit s)) \<and>
   dp_period (date_point ((y, m, d), t, n))
     = format_0d 4 y @ ''-'' @ format_0d 2 m @ ''-'' @ format_0d 2 d"
  by (simp add: get_expenses_for_visualization_def execute_def date_point_def str_date_def)

subsection \<open>Totals of the time series response\<close>



subsection \<open>Rejection of an unknown period type\<close>

text \<open>
  Claim C6. For every period type outside day, week, month and year, the time-series
  request fails with a validation error and leaves the store as it was: no statement is
  executed. Every call of the aggregation executes one statement, so the aggregation is
  not called.
\<close>

theorem unknown_period_type_rejected:
  assumes "period_type \<notin> {''day'', ''week'', ''month'', ''year''}"
  shows "get_visualization_data period_type limit uid s =
           (Inl (if limit < 1 \<or> 100 < limit then RequestValidationError
                 else HTTPException 400
                        ''Invalid period_type. Must be one of: day, week, month, year''), s) \<and>
         executed (snd (get_visualization_data period_type limit uid s)) = executed s \<and>
         (\<forall>pt n. executed (snd (get_expenses_for_visualization uid pt n s)) = Suc (executed s))"
  using assms
  by (simp add: get_visualization_data_def snd_get_expenses_for_visualization)

theorem unknown_period_type_rejected_witness:
  "''quarter'' \<notin> {''day'', ''week'', ''month'', ''year''} \<and>
   get_visualization_data ''quarter'' 12 7 example_session =
     (Inl (HTTPException 400 ''Invalid period_type. Must be one of: day, week, month, year''),
      example_session) \<and>
   get_visualization_data ''quarter'' 0 7 example_session =
     (Inl RequestValidationError, example_session) \<and>
   executed (snd (get_visualization_data ''quarter'' 12 7 example_session)) = 0 \<and>
   executed (snd (get_expenses_for_visualization 7 ''quarter'' 12 example_session)) = 1"
proof -
  have out: "''quarter'' \<notin> {''day'', ''week'', ''month'', ''year''}"
    by simp
  have zero: "executed example_session = 0"
    by (simp add: example_session_def)
  from unknown_period_type_rejected[OF out, of 12 7 example_session]
    unknown_period_type_rejected[OF out, of 0 7 example_session] out zero
  show ?thesis
    by simp
qed

subsection \<open>Pagination\<close>

lemma total_pages_bounds:
  assumes "1 \<le> page_size" "0 < total_count"
  shows "int total_count \<le> total_pages total_count page_size * page_size"
    and "(total_pages total_count page_size - 1) * page_size < int total_count"
proof -
  let ?q = "rat_of_nat total_count / rat_of_int page_size"
  have ps: "0 < rat_of_int page_size"
    using assms(1) by simp
  have tp: "total_pages total_count page_size = \<lceil>?q\<rceil>"
    using assms(2) by (simp add: total_pages_def)
  have q: "?q * rat_of_int page_size = rat_of_nat total_count"
    using ps by simp
  have "?q * rat_of_int page_size \<le> rat_of_int \<lceil>?q\<rceil> * rat_of_int page_size"
    using ps by (intro mult_right_mono le_of_int_ceiling) simp
  then have "rat_of_nat total_count \<le> rat_of_int \<lceil>?q\<rceil> * rat_of_int page_size"
    by (simp only: q)
  then have "rat_of_int (int total_count) \<le> rat_of_int (\<lceil>?q\<rceil> * page_size)"
    by simp
  then show "int total_count \<le> total_pages total_count page_size * page_size"
    unfolding tp by (simp only: of_int_le_iff)
  have "rat_of_int \<lceil>?q\<rceil> - 1 < ?q"
    by linarith
  then have "(rat_of_int \<lceil>?q\<rceil> - 1) * rat_of_int page_size < ?q * rat_of_int page_size"
    using ps by (rule mult_strict_right_mono)
  then have "(rat_of_int \<lceil>?q\<rceil> - 1) * rat_of_int page_size < rat_of_nat total_count"
    by (simp only: q)
  then have "rat_of_int ((\<lceil>?q\<rceil> - 1) * page_size) < rat_of_int (int total_count)"
    by simp
  then show "(total_pages total_count page_size - 1) * page_size < int total_count"
    unfolding tp by (simp only: of_int_less_iff)
qed

lemma total_pages_div:
  assumes "1 \<le> page_size"
  shows "total_pages total_count page_size = (int total_count + page_size - 1) div page_size"
proof (cases "0 < total_count")
  case False
  then show ?thesis
    using assms by (simp add: total_pages_def)
next
  case True
  let ?n = "total_pages total_count page_size"
  have up: "int total_count \<le> ?n * page_size"
    and low: "(?n - 1) * page_size < int total_count"
    using total_pages_bounds[OF assms True] by blast+
  have "int total_count + page_size - 1
          = page_size * ?n + (int total_count + page_size - 1 - ?n * page_size)"
    by (simp add: algebra_simps)
  moreover have "0 \<le> int total_count + page_size - 1 - ?n * page_size"
    using low by (simp add: algebra_simps)
  moreover have "int total_count + page_size - 1 - ?n * page_size < page_size"
    using up by simp
  ultimately have "(int total_count + page_size - 1) div page_size = ?n"
    by (rule int_div_pos_eq)
  then show ?thesis by simp
qed

lemma get_expenses_response:
  assumes "get_expenses page page_size cat st en search uid s = (Inr resp, s')"
  shows "1 \<le> page_size \<and> page_size \<le> 100 \<and>
         lr_total resp = length (filter (matches s uid cat st en search) (table s)) \<and>
         lr_total_pages resp = total_pages (lr_total resp) page_size"
  using assms
  by (auto simp: get_expenses_def get_user_expenses_def execute_def Let_def case_prod_unfold
      count_statement_def func_count_def split: if_splits)

text \<open>
  Claim C5. For every total count and every page size of at least 1, total_pages is the
  ceiling of total_count / page_size: 0 for a total count of 0, and otherwise the least
  number of pages of that size that hold total_count records; 101 records in pages of 50
  give 3 pages. A successful list-expenses response reports the number of matching records
  as its total and this value as total_pages.
\<close>

theorem total_pages_is_ceiling:
  assumes "1 \<le> page_size"
  shows "total_pages 0 page_size = 0 \<and>
         (0 < total_count \<longrightarrow>
            total_pages total_count page_size
              = \<lceil>rat_of_nat total_count / rat_of_int page_size\<rceil> \<and>
            int total_count \<le> total_pages total_count page_size * page_size \<and>
            (total_pages total_count page_size - 1) * page_size < int total_count) \<and>
         total_pages total_count page_size = (int total_count + page_size - 1) div page_size \<and>
         total_pages 101 50 = 3 \<and>
         (get_expenses page page_size cat st en search uid s = (Inr resp, s') \<longrightarrow>
            lr_total resp = length (filter (matches s uid cat st en search) (table s)) \<and>
            lr_total_pages resp = total_pages (lr_total resp) page_size)"
proof -
  have zero: "total_pages 0 page_size = 0"
    by (simp add: total_pages_def)
  have ceil: "0 < total_count \<longrightarrow>
      total_pages total_count page_size = \<lceil>rat_of_nat total_count / rat_of_int page_size\<rceil>"
    by (simp add: total_pages_def)
  have example: "total_pages 101 50 = 3"
    using total_pages_div[of 50 101] by simp
  from zero ceil example total_pages_bounds[OF assms, of total_count]
    total_pages_div[OF assms, of total_count]
    get_expenses_response[of page page_size cat st en search uid s resp s']
  show ?thesis
    by (intro conjI) blast+
qed

theorem total_pages_is_ceiling_witness:
  "(1::int) \<le> 50 \<and> total_pages 0 50 = 0 \<and> total_pages 101 50 = 3 \<and>
   (101::int) \<le> 3 * 50 \<and> (3 - 1) * 50 < (101::int) \<and>
   lr_total (projr (fst (get_expenses 1 50 None None None None 7 example_session))) = 4 \<and>
   lr_total_pages (projr (fst (get_expenses 1 50 None None None None 7 example_session))) = 1"
proof -
  let ?r = "get_expenses 1 50 None None None None 7 example_session"
  have ps: "(1::int) \<le> 50"
    by simp
  have pos: "0 < (101::nat)"
    by simp
  have ok: "?r = (Inr (projr (fst ?r)), snd ?r)"
    by (simp add: get_expenses_def Let_def case_prod_unfold)
  note t = total_pages_is_ceiling[OF ps, of 101 1 None None None None 7 example_session
      "projr (fst ?r)" "snd ?r"]
  note t4 = total_pages_is_ceiling[OF ps, of 4 1 None None None None 7 example_session
      "projr (fst ?r)" "snd ?r"]
  have matching: "length (filter (matches example_session 7 None None None None)
      (table example_session)) = 4"
    by code_simp
  from t have z: "total_pages 0 50 = 0" and e: "total_pages 101 50 = 3"
    by blast+
  from t pos e have b: "(101::int) \<le> 3 * 50 \<and> (3 - 1) * 50 < (101::int)"
    by simp
  from t ok have total: "lr_total (projr (fst ?r)) = 4"
    and pages: "lr_total_pages (projr (fst ?r)) = total_pages (lr_total (projr (fst ?r))) 50"
    unfolding matching by blast+
  from t4 have "total_pages 4 50 = (int 4 + 50 - 1) div 50"
    by blast
  then have "total_pages 4 50 = 1"
    by simp
  with pages total have one: "lr_total_pages (projr (fst ?r)) = 1"
    by simp
  from ps z e b total one show ?thesis
    by (intro conjI) blast+
qed

subsection \<open>A month without expenses\<close>

lemma str_nat_digit: "n < 10 \<Longrightarrow> str_nat n = [digit_char n]"
  by simp

lemma str_nat_two_digits:
  assumes "10 \<le> n" "n < 100"
  shows "str_nat n = [digit_char (n div 10), digit_char (n mod 10)]"
proof -
  have "n div 10 < 10"
    using assms by simp
  then have "str_nat (n div 10) = [digit_char (n div 10)]"
    by (rule str_nat_digit)
  moreover have "str_nat n = str_nat (n div 10) @ [digit_char (n mod 10)]"
    using assms(1) by (subst str_nat.simps) simp
  ultimately show ?thesis by simp
qed

lemma format_02d:
  assumes "0 \<le> i" "i < 100"
  shows "format_0d 2 i = [digit_char (nat i div 10), digit_char (nat i mod 10)]"
proof (cases "i < 10")
  case True
  then have "str_nat (nat \<bar>i\<bar>) = [digit_char (nat i)]"
    using assms by (simp del: str_nat.simps add: str_nat_digit)
  moreover have "digit_char (nat i div 10) = CHR ''0''"
    using True assms by (simp add: digit_char_def)
  ultimately show ?thesis
    using True assms by (simp del: str_nat.simps add: format_0d_def Let_def)
next
  case False
  then have "str_nat (nat \<bar>i\<bar>) = [digit_char (nat i div 10), digit_char (nat i mod 10)]"
    using assms by (simp del: str_nat.simps add: str_nat_two_digits)
  then show ?thesis
    using assms by (simp del: str_nat.simps add: format_0d_def Let_def)
qed

lemma fst_get_monthly_statistics:
  "fst (get_monthly_statistics uid year month s) =
     \<lparr>es_period = str year @ ''-'' @ format_0d 2 month,
      es_total_spending = float_or_zero (fst (month_statement uid year month s)),
      es_average_expense = float_or_zero (fst (snd (month_statement uid year month s))),
      es_expense_count = count_or_zero (snd (snd (month_statement uid year month s))),
      es_top_category =
        (case category_statement uid year month s of None \<Rightarrow> None
         | Some (c, t, n) \<Rightarrow> Some c),
      es_top_category_amount =
        (case category_statement uid year month s of None \<Rightarrow> None
         | Some (c, t, n) \<Rightarrow> Some (float t))\<rparr>"
  by (simp add: get_monthly_statistics_def execute_def Let_def case_prod_unfold
      category_statement_def)

text \<open>
  Claim C4. For every owner, year and month without a matching record, the monthly
  statistics are total spending 0, average expense 0, expense count 0, and no top category
  and no top category amount. In all cases the period label is the year, a hyphen and the
  month in format \<open>02d\<close>, which for a month from 0 to 99 is its two decimal digits.
\<close>

theorem monthly_statistics_empty_month:
  "es_period (fst (get_monthly_statistics uid year month s))
     = str year @ ''-'' @ format_0d 2 month \<and>
   (0 \<le> month \<and> month < 100 \<longrightarrow>
      format_0d 2 month = [digit_char (nat month div 10), digit_char (nat month mod 10)]) \<and>
   (in_month uid year month (table s) = [] \<longrightarrow>
      fst (get_monthly_statistics uid year month s) =
        \<lparr>es_period = str year @ ''-'' @ format_0d 2 month,
         es_total_spending = 0, es_average_expense = 0, es_expense_count = 0,
         es_top_category = None, es_top_category_amount = None\<rparr>)"
proof -
  have empty: "in_month uid year month (table s) = [] \<longrightarrow>
      fst (get_monthly_statistics uid year month s) =
        \<lparr>es_period = str year @ ''-'' @ format_0d 2 month,
         es_total_spending = 0, es_average_expense = 0, es_expense_count = 0,
         es_top_category = None, es_top_category_amount = None\<rparr>"
    by (simp add: fst_get_monthly_statistics month_statement_def category_statement_def
        func_sum_def func_avg_def func_count_def float_or_zero_def count_or_zero_def
        group_by_category_Nil order_by_desc_total_Nil first_def)
  have label: "es_period (fst (get_monthly_statistics uid year month s))
      = str year @ ''-'' @ format_0d 2 month"
    by (simp only: fst_get_monthly_statistics) simp
  from label empty format_02d[of month] show ?thesis
    by (intro conjI) blast+
qed

theorem monthly_statistics_empty_month_witness:
  "in_month 7 2025 5 (table example_session) = [] \<and>
   fst (get_monthly_statistics 7 2025 5 example_session) =
     \<lparr>es_period = ''2025-05'', es_total_spending = 0, es_average_expense = 0,
      es_expense_count = 0, es_top_category = None, es_top_category_amount = None\<rparr> \<and>
   es_period (fst (get_monthly_statistics 7 2025 3 example_session)) = ''2025-03'' \<and>
   (0::int) \<le> 3 \<and> (3::int) < 100 \<and> format_0d 2 3 = ''03''"
proof -
  have none: "in_month 7 2025 5 (table example_session) = []"
    by code_simp
  have label5: "str 2025 @ ''-'' @ format_0d 2 5 = ''2025-05''"
    by code_simp
  have label3: "str 2025 @ ''-'' @ format_0d 2 3 = ''2025-03''"
    by code_simp
  have digits: "[digit_char (nat 3 div 10), digit_char (nat 3 mod 10)] = ''03''"
    by code_simp
  have bounds: "(0::int) \<le> 3 \<and> (3::int) < 100"
    by simp
  note may = monthly_statistics_empty_month[of 7 2025 5 example_session]
  note march = monthly_statistics_empty_month[of 7 2025 3 example_session]
  from may none have "fst (get_monthly_statistics 7 2025 5 example_session) =
      \<lparr>es_period = str 2025 @ ''-'' @ format_0d 2 5, es_total_spending = 0,
       es_average_expense = 0, es_expense_count = 0, es_top_category = None,
       es_top_category_amount = None\<rparr>"
    by blast
  then have stats: "fst (get_monthly_statistics 7 2025 5 example_session) =
      \<lparr>es_period = ''2025-05'', es_total_spending = 0, es_average_expense = 0,
       es_expense_count = 0, es_top_category = None, es_top_category_amount = None\<rparr>"
    by (simp only: label5)
  from march have "es_period (fst (get_monthly_statistics 7 2025 3 example_session))
      = str 2025 @ ''-'' @ format_0d 2 3"
    by blast
  then have period: "es_period (fst (get_monthly_statistics 7 2025 3 example_session)) = ''2025-03''"
    by (simp only: label3)
  from march bounds have "format_0d 2 3 = [digit_char (nat 3 div 10), digit_char (nat 3 mod 10)]"
    by blast
  then have fmt: "format_0d 2 3 = ''03''"
    by (simp only: digits)
  from none stats period bounds fmt show ?thesis
    by (intro conjI) blast+
qed

end
